theory Spec2Isabelle
  imports Main "HOL-Library.Word"
begin

section \<open>The worker loop of FakeHLF PseudoCode\<close>

text \<open>
  The development embeds \<^verbatim>\<open>FakeHLF_PseudoCode::do_work\<close>
  (lines 94 to 198 of the source file) as a machine that runs one control
  point of the function at a time. The two things the function cannot decide itself come
  from the environment: what \<^verbatim>\<open>running_flag.load()\<close> returns, and whether a
  \<^verbatim>\<open>send\<close> or \<^verbatim>\<open>receive\<close> returns or throws
  \<^verbatim>\<open>TransportTimeoutExpired\<close>.
\<close>

subsection \<open>Data\<close>

text \<open>
  The counters of \<^verbatim>\<open>do_work\<close> are declared \<^verbatim>\<open>int\<close>: 32-bit words, read as signed
  numbers by \<open>sint\<close>. The C++ standard leaves signed overflow undefined; the model takes
  the two's-complement wrap-around of the usual build, so that \<^verbatim>\<open>++\<close> on 2147483647
  gives -2147483648.
\<close>

type_synonym int32 = "32 word"

text \<open>The three endpoints held by the module (lines 31 to 33).\<close>

datatype endpoint = RequestSender | DataReceiver | ResultSender

text \<open>
  How one endpoint call ends: it returns, or it throws the only exception the function
  catches.
\<close>

datatype outcome = Returned | TransportTimeoutExpired

text \<open>
  The integer names that \<^verbatim>\<open>do_work\<close> reads or writes. The first six are declared in
  the function (lines 98 to 102 and 137); the last three are used by it (lines 132, 193
  and 194) and declared nowhere in the file.
\<close>

datatype variable =
    V_TRsToRequestEachTime
  | V_requestCount
  | V_requestedTRCount
  | V_receivedCount
  | V_sentCount
  | V_trigRecLeftToReceive
  | V_requestTRCount
  | V_TRsPerRequest
  | V_processedCount

text \<open>
  What the function does that can be observed from outside:
  an endpoint call with its outcome, an \<^verbatim>\<open>ers::warning\<close> carrying the text that
  names the endpoint and the timeout in milliseconds, and the \<^verbatim>\<open>ers::info\<close> of
  lines 191 to 196, carrying the values streamed into its text in the order of the
  \<^verbatim>\<open><<\<close> operators, each with the name the source reads it from and as the signed
  number that is printed. The \<^verbatim>\<open>TLOG\<close> trace lines are not part of the model.
\<close>

datatype event =
    Called endpoint outcome
  | Warning endpoint int
  | ProgressUpdate "(variable \<times> int) list"

text \<open>
  Values the function reads but does not compute. \<open>TRsToRequestEachTime\<close> is the local
  \<^verbatim>\<open>const int\<close> of line 98 (the source initialises it to 1); the three timeouts are
  the members that the constructor sets to 100, read as a count of milliseconds. The last
  three are the names that \<^verbatim>\<open>do_work\<close> uses but that are declared nowhere in the file.
  \<^verbatim>\<open>TRsPerRequest\<close> (line 193) and \<^verbatim>\<open>processedCount\<close> (line 194) are only read and
  printed: nothing in the file says what they hold, so they are numbers without a width.
  \<^verbatim>\<open>requestTRCount\<close> (line 132) is added to, so the record holds the value it has when
  the function is entered; it is given the type of the counter it is spelled after.
\<close>

record config =
  TRsToRequestEachTime :: int32
  requestSendTimeout :: int
  dataReceiveTimeout :: int
  resultSendTimeout :: int
  TRsPerRequest :: int
  processedCount :: int
  requestTRCount_on_entry :: int32

text \<open>
  The control points of \<^verbatim>\<open>do_work\<close>, each named after the source line it stands at.
\<close>

datatype point =
    While_104      \<comment> \<open>\<^verbatim>\<open>while (running_flag.load())\<close>\<close>
  | Send_119       \<comment> \<open>\<^verbatim>\<open>requestSender_->send(trReq, requestSendTimeout_)\<close>\<close>
  | While_138      \<comment> \<open>\<^verbatim>\<open>while (trigRecLeftToReceive > 0 && running_flag.load())\<close>\<close>
  | While_142      \<comment> \<open>\<^verbatim>\<open>while (!trigRecWasSuccessfullyReceived && running_flag.load())\<close>\<close>
  | Receive_147    \<comment> \<open>\<^verbatim>\<open>dataReceiver_->receive(trigRec, dataReceiveTimeout_)\<close>\<close>
  | If_163         \<comment> \<open>\<^verbatim>\<open>if (trigRecWasSuccessfullyReceived)\<close>\<close>
  | While_170      \<comment> \<open>\<^verbatim>\<open>while (!trigRecWasSuccessfullySent && running_flag.load())\<close>\<close>
  | Send_175       \<comment> \<open>\<^verbatim>\<open>resultSender_->send(trigRec, resultSendTimeout_)\<close>\<close>
  | Summary_191    \<comment> \<open>the summary, after the outer loop\<close>
  | Exited         \<comment> \<open>\<^verbatim>\<open>do_work\<close> has returned\<close>

text \<open>
  The variables of \<^verbatim>\<open>do_work\<close>, the name \<^verbatim>\<open>requestTRCount\<close> that line 132
  updates, and the events emitted so far.
\<close>

record state =
  pc :: point
  requestCount :: int32
  requestedTRCount :: int32
  receivedCount :: int32
  sentCount :: int32
  requestTRCount :: int32
  trigRecLeftToReceive :: int32
  trigRecWasSuccessfullyReceived :: bool
  trigRecWasSuccessfullySent :: bool
  events :: "event list"

text \<open>
  What the environment answers at one step: the value a load of the running flag returns
  at that moment, and the way an endpoint call made at that moment ends. A step uses the
  part it asks for and ignores the other.
\<close>

record env =
  running_flag :: bool
  result :: outcome

subsection \<open>The function\<close>

text \<open>
  Lines 98 to 102. The variables declared further down, inside the loops, do not exist
  yet; every one of them is assigned before it is first read.
\<close>

definition initial :: "config \<Rightarrow> state" where
  "initial cfg =
     \<lparr> pc = While_104,
       requestCount = 0,
       requestedTRCount = 0,
       receivedCount = 0,
       sentCount = 0,
       requestTRCount = requestTRCount_on_entry cfg,
       trigRecLeftToReceive = 0,
       trigRecWasSuccessfullyReceived = False,
       trigRecWasSuccessfullySent = False,
       events = [] \<rparr>"

text \<open>
  One control point of \<^verbatim>\<open>do_work\<close>.
  \<^item> Line 104: the outer loop runs its body while the flag reads true, and falls through
    to the summary otherwise.
  \<^item> Lines 117 to 137: a request-send that returns counts the request (lines 131 and 132;
    line 132 adds to \<^verbatim>\<open>requestTRCount\<close>, not to the \<^verbatim>\<open>requestedTRCount\<close> of
    line 100) and sets \<^verbatim>\<open>trigRecLeftToReceive\<close>; one that times out warns and
    \<^verbatim>\<open>continue\<close>s to line 104.
  \<^item> Line 138: the comparison with 0 is signed, and \<^verbatim>\<open>&&\<close> loads the flag only when
    records are still owed. The body starts
    by clearing \<^verbatim>\<open>trigRecWasSuccessfullyReceived\<close> (line 141); leaving the loop ends
    the body of the outer loop.
  \<^item> Lines 142 to 161: the receive loop; a timeout warns.
  \<^item> Lines 163 to 169, 170 to 184: the received record is counted and sent back; the
    handler of line 179 is empty.
  \<^item> Lines 191 to 198: the summary and the return.
\<close>

definition step :: "config \<Rightarrow> env \<Rightarrow> state \<Rightarrow> state" where
  "step cfg e s =
    (case pc s of
       While_104 \<Rightarrow>
         if running_flag e then s\<lparr>pc := Send_119\<rparr> else s\<lparr>pc := Summary_191\<rparr>
     | Send_119 \<Rightarrow>
         (case result e of
            Returned \<Rightarrow>
              s\<lparr>pc := While_138,
                requestCount := requestCount s + 1,
                requestTRCount := requestTRCount s + TRsToRequestEachTime cfg,
                trigRecLeftToReceive := TRsToRequestEachTime cfg,
                events := events s @ [Called RequestSender Returned]\<rparr>
          | TransportTimeoutExpired \<Rightarrow>
              s\<lparr>pc := While_104,
                events := events s @
                  [Called RequestSender TransportTimeoutExpired,
                   Warning RequestSender (requestSendTimeout cfg)]\<rparr>)
     | While_138 \<Rightarrow>
         if 0 < sint (trigRecLeftToReceive s) \<and> running_flag e
         then s\<lparr>pc := While_142, trigRecWasSuccessfullyReceived := False\<rparr>
         else s\<lparr>pc := While_104\<rparr>
     | While_142 \<Rightarrow>
         if \<not> trigRecWasSuccessfullyReceived s \<and> running_flag e
         then s\<lparr>pc := Receive_147\<rparr>
         else s\<lparr>pc := If_163\<rparr>
     | Receive_147 \<Rightarrow>
         (case result e of
            Returned \<Rightarrow>
              s\<lparr>pc := While_142,
                trigRecWasSuccessfullyReceived := True,
                trigRecLeftToReceive := trigRecLeftToReceive s - 1,
                events := events s @ [Called DataReceiver Returned]\<rparr>
          | TransportTimeoutExpired \<Rightarrow>
              s\<lparr>pc := While_142,
                events := events s @
                  [Called DataReceiver TransportTimeoutExpired,
                   Warning DataReceiver (dataReceiveTimeout cfg)]\<rparr>)
     | If_163 \<Rightarrow>
         if trigRecWasSuccessfullyReceived s
         then s\<lparr>pc := While_170,
                receivedCount := receivedCount s + 1,
                trigRecWasSuccessfullySent := False\<rparr>
         else s\<lparr>pc := While_138\<rparr>
     | While_170 \<Rightarrow>
         if \<not> trigRecWasSuccessfullySent s \<and> running_flag e
         then s\<lparr>pc := Send_175\<rparr>
         else s\<lparr>pc := While_138\<rparr>
     | Send_175 \<Rightarrow>
         (case result e of
            Returned \<Rightarrow>
              s\<lparr>pc := While_170,
                trigRecWasSuccessfullySent := True,
                sentCount := sentCount s + 1,
                events := events s @ [Called ResultSender Returned]\<rparr>
          | TransportTimeoutExpired \<Rightarrow>
              s\<lparr>pc := While_170,
                events := events s @ [Called ResultSender TransportTimeoutExpired]\<rparr>)
     | Summary_191 \<Rightarrow>
         s\<lparr>pc := Exited,
           events := events s @
             [ProgressUpdate
                [(V_requestCount, sint (requestCount s)),
                 (V_TRsPerRequest, TRsPerRequest cfg),
                 (V_receivedCount, sint (receivedCount s)),
                 (V_processedCount, processedCount cfg),
                 (V_sentCount, sint (sentCount s))]]\<rparr>
     | Exited \<Rightarrow> s)"

text \<open>Running from a state through the answers of the environment, one per step.\<close>

fun run :: "config \<Rightarrow> env list \<Rightarrow> state \<Rightarrow> state" where
  "run cfg [] s = s"
| "run cfg (e # es) s = run cfg es (step cfg e s)"

text \<open>
  \<^verbatim>\<open>do_work\<close> from its entry, observed after as many steps as the environment has
  given answers.
\<close>

definition do_work :: "config \<Rightarrow> env list \<Rightarrow> state" where
  "do_work cfg es = run cfg es (initial cfg)"

text \<open>
  The configuration of the source: one record per request (line 98), timeouts of 100
  (lines 34 to 36). The file fixes no value for the three undeclared names; the values
  here are those of a first run in which \<^verbatim>\<open>TRsPerRequest\<close> is the batch size and
  nothing has been counted before the function is entered.
\<close>

definition source_config :: config where
  "source_config =
     \<lparr> TRsToRequestEachTime = 1,
       requestSendTimeout = 100,
       dataReceiveTimeout = 100,
       resultSendTimeout = 100,
       TRsPerRequest = 1,
       processedCount = 0,
       requestTRCount_on_entry = 0 \<rparr>"

text \<open>Answers of the environment, named by the flag's value.\<close>

definition running :: "outcome \<Rightarrow> env" where
  "running r = \<lparr> running_flag = True, result = r \<rparr>"

definition stopped :: "outcome \<Rightarrow> env" where
  "stopped r = \<lparr> running_flag = False, result = r \<rparr>"

subsection \<open>Notions used to state the properties\<close>

text \<open>The kinds of event.\<close>

fun is_call :: "event \<Rightarrow> bool" where
  "is_call (Called ep r) = True"
| "is_call ev = False"

fun is_warning :: "event \<Rightarrow> bool" where
  "is_warning (Warning ep t) = True"
| "is_warning ev = False"

fun is_summary :: "event \<Rightarrow> bool" where
  "is_summary (ProgressUpdate vs) = True"
| "is_summary ev = False"

text \<open>The endpoint calls made so far, in order.\<close>

definition calls :: "state \<Rightarrow> event list" where
  "calls s = filter is_call (events s)"

text \<open>The control points that make an endpoint call.\<close>

definition call_site :: "point \<Rightarrow> bool" where
  "call_site p = (p = Send_119 \<or> p = Receive_147 \<or> p = Send_175)"

text \<open>The four counters declared in lines 99 to 102, in the order of their declarations.\<close>

definition counters :: "state \<Rightarrow> int32 \<times> int32 \<times> int32 \<times> int32" where
  "counters s = (requestCount s, requestedTRCount s, receivedCount s, sentCount s)"

text \<open>
  An upper bound on the steps from a control point to the return when every load of the
  flag reads false; the call sites, which load nothing, get a value above all others.
\<close>

fun steps_to_exit :: "point \<Rightarrow> nat" where
  "steps_to_exit Exited = 0"
| "steps_to_exit Summary_191 = 1"
| "steps_to_exit While_104 = 2"
| "steps_to_exit While_138 = 3"
| "steps_to_exit While_170 = 4"
| "steps_to_exit If_163 = 5"
| "steps_to_exit While_142 = 6"
| "steps_to_exit Send_119 = 7"
| "steps_to_exit Receive_147 = 7"
| "steps_to_exit Send_175 = 7"

text \<open>
  The calls that have returned so far, by endpoint, and the result-sends that have timed
  out.
\<close>

definition requests_sent :: "state \<Rightarrow> nat" where
  "requests_sent s = count_list (events s) (Called RequestSender Returned)"

definition records_received :: "state \<Rightarrow> nat" where
  "records_received s = count_list (events s) (Called DataReceiver Returned)"

definition results_sent :: "state \<Rightarrow> nat" where
  "results_sent s = count_list (events s) (Called ResultSender Returned)"

definition result_timeouts :: "state \<Rightarrow> nat" where
  "result_timeouts s = count_list (events s) (Called ResultSender TransportTimeoutExpired)"

text \<open>
  A record that has been received is counted one step later, in line 165: between the
  return of \<^verbatim>\<open>receive\<close> and that line one record is pending. From line 165 to the return
  of the result-send one record is counted as received and not as sent.
\<close>

definition pending :: "state \<Rightarrow> nat" where
  "pending s =
     (if (pc s = While_142 \<or> pc s = If_163) \<and> trigRecWasSuccessfullyReceived s
      then 1 else 0)"

definition unsent :: "state \<Rightarrow> nat" where
  "unsent s =
     (if (pc s = While_170 \<or> pc s = Send_175) \<and> \<not> trigRecWasSuccessfullySent s
      then 1 else 0)"

text \<open>
  How the counters follow the calls, at every control point: each counter is the number
  of returned calls of its endpoint, as a 32-bit number (less the pending record), and a
  record is sent back only after it has been received and counted.
\<close>

definition counters_follow_calls :: "state \<Rightarrow> bool" where
  "counters_follow_calls s =
     (requestCount s = of_nat (requests_sent s) \<and>
      receivedCount s + of_nat (pending s) = of_nat (records_received s) \<and>
      sentCount s = of_nat (results_sent s) \<and>
      results_sent s + unsent s + pending s \<le> records_received s \<and>
      (if pc s = Receive_147 then \<not> trigRecWasSuccessfullyReceived s else True) \<and>
      (if pc s = Send_175 then \<not> trigRecWasSuccessfullySent s else True))"

text \<open>
  What is still owed: \<^verbatim>\<open>trigRecLeftToReceive\<close> is never negative, it is positive where
  a \<^verbatim>\<open>receive\<close> is about to be made, and the records received and those still owed
  are together at most the batch size times the requests sent.
\<close>

definition owed_invariant :: "config \<Rightarrow> state \<Rightarrow> bool" where
  "owed_invariant cfg s =
     (0 \<le> sint (trigRecLeftToReceive s) \<and>
      int (records_received s) + sint (trigRecLeftToReceive s)
        \<le> sint (TRsToRequestEachTime cfg) * int (requests_sent s) \<and>
      (if pc s = Receive_147 \<or> pc s = While_142 \<and> \<not> trigRecWasSuccessfullyReceived s
       then 0 < sint (trigRecLeftToReceive s) else True))"

text \<open>The summary that line 196 emits in a state.\<close>

definition summary_of :: "config \<Rightarrow> state \<Rightarrow> event" where
  "summary_of cfg s =
     ProgressUpdate
       [(V_requestCount, sint (requestCount s)),
        (V_TRsPerRequest, TRsPerRequest cfg),
        (V_receivedCount, sint (receivedCount s)),
        (V_processedCount, processedCount cfg),
        (V_sentCount, sint (sentCount s))]"

text \<open>The values that a summary carries, with their names; no other event carries any.\<close>

fun streamed :: "event \<Rightarrow> (variable \<times> int) list" where
  "streamed (ProgressUpdate vs) = vs"
| "streamed ev = []"

text \<open>No summary before the return; after it exactly one, the last event.\<close>

definition summary_invariant :: "config \<Rightarrow> state \<Rightarrow> bool" where
  "summary_invariant cfg s =
     (if pc s = Exited
      then filter is_summary (events s) = [summary_of cfg s] \<and>
           events s \<noteq> [] \<and> last (events s) = summary_of cfg s
      else filter is_summary (events s) = [])"

text \<open>
  The summary as the specification describes it: it reports the four counters, requests
  sent, items requested cumulative, items received and items forwarded. For the items
  requested, either of the two names the source has for them will do.
\<close>

fun reports_four_counters :: "state \<Rightarrow> event \<Rightarrow> bool" where
  "reports_four_counters s (ProgressUpdate vs) =
     ((V_requestCount, sint (requestCount s)) \<in> set vs \<and>
      ((V_requestedTRCount, sint (requestedTRCount s)) \<in> set vs \<or>
       (V_requestTRCount, sint (requestTRCount s)) \<in> set vs) \<and>
      (V_receivedCount, sint (receivedCount s)) \<in> set vs \<and>
      (V_sentCount, sint (sentCount s)) \<in> set vs)"
| "reports_four_counters s ev = False"

text \<open>
  The worker holds a record that it has received and not yet sent back: from the return
  of \<^verbatim>\<open>receive\<close> (line 148) to the return of the result-send (line 176).
\<close>

definition holds_unsent_record :: "state \<Rightarrow> bool" where
  "holds_unsent_record s =
     (pc s = While_142 \<and> trigRecWasSuccessfullyReceived s \<or>
      pc s = If_163 \<and> trigRecWasSuccessfullyReceived s \<or>
      pc s = While_170 \<and> \<not> trigRecWasSuccessfullySent s \<or>
      pc s = Send_175 \<and> \<not> trigRecWasSuccessfullySent s)"

text \<open>
  The number of steps from a control point at which a record is held to the call of the
  result-send in line 175, when the flag reads true.
\<close>

fun steps_to_send :: "point \<Rightarrow> nat" where
  "steps_to_send While_142 = 3"
| "steps_to_send If_163 = 2"
| "steps_to_send While_170 = 1"
| "steps_to_send p = 0"

subsection \<open>Concrete executions\<close>

text \<open>
  With the flag up and every call returning, one pass of the outer loop takes eleven
  steps: 104, 119, 138, 142, 147, 142, 163, 170, 175, 170, 138, and back to 104.
  Three steps reach the receive loop, five the return of \<^verbatim>\<open>receive\<close>, seven the send
  loop, eight the result-send.
\<close>

definition request_sent :: "env list" where
  "request_sent = replicate 2 (running Returned)"

definition at_receive_loop :: "env list" where
  "at_receive_loop = replicate 3 (running Returned)"

definition at_receive :: "env list" where
  "at_receive = replicate 4 (running Returned)"

definition record_received :: "env list" where
  "record_received = replicate 5 (running Returned)"

definition at_send_loop :: "env list" where
  "at_send_loop = replicate 7 (running Returned)"

definition at_result_send :: "env list" where
  "at_result_send = replicate 8 (running Returned)"

definition one_pass :: "env list" where
  "one_pass = replicate 11 (running Returned)"

text \<open>A record is requested and received, and the result-send times out.\<close>

definition result_send_times_out :: "env list" where
  "result_send_times_out = replicate 8 (running Returned) @ [running TransportTimeoutExpired]"

text \<open>Two full passes, then the flag reads false at line 104.\<close>

definition two_passes_then_stop :: "env list" where
  "two_passes_then_stop = replicate 22 (running Returned) @ replicate 2 (stopped Returned)"

text \<open>The flag reads false in the receive loop, before any record has arrived.\<close>

definition stopped_while_receiving :: "env list" where
  "stopped_while_receiving = replicate 3 (running Returned) @ replicate 6 (stopped Returned)"

text \<open>
  A configuration that asks for two records per request, and an execution of it in which
  one record is received and sent back, the flag then reads false at line 138 with one
  record still owed, and reads true again at line 104.
\<close>

definition two_per_request :: config where
  "two_per_request = source_config\<lparr>TRsToRequestEachTime := 2, TRsPerRequest := 2\<rparr>"

definition batch_cut_short :: "env list" where
  "batch_cut_short =
     replicate 10 (running Returned) @ [stopped Returned, running Returned]"

text \<open>
  From the return of \<^verbatim>\<open>receive\<close>: the result-send times out twice and then returns,
  and the loop goes on to the next request.
\<close>

definition send_after_two_timeouts :: "env list" where
  "send_after_two_timeouts =
     replicate 3 (running Returned) @
     [running TransportTimeoutExpired, running Returned,
      running TransportTimeoutExpired, running Returned] @
     replicate 4 (running Returned)"

text \<open>
  From the call of the result-send: four attempts in a row time out, the flag reading
  true in between.
\<close>

definition four_result_timeouts :: "env list" where
  "four_result_timeouts = replicate 8 (running TransportTimeoutExpired)"

text \<open>
  As many full passes as a 32-bit counter can count: after them \<^verbatim>\<open>requestCount\<close>,
  \<^verbatim>\<open>receivedCount\<close> and \<^verbatim>\<open>sentCount\<close> are all 2147483647.
\<close>

definition passes_to_the_limit :: "env list" where
  "passes_to_the_limit = concat (replicate 2147483647 one_pass)"

section \<open>Properties of the worker loop\<close>

subsection \<open>Executions\<close>

lemma run_append: "run cfg (es @ es') s = run cfg es' (run cfg es s)"
  by (induction es arbitrary: s) simp_all



lemma do_work_append: "do_work cfg (es @ es') = run cfg es' (do_work cfg es)"
  by (simp add: do_work_def run_append)

subsection \<open>32-bit counters\<close>

text \<open>
  Away from the ends of the range, \<^verbatim>\<open>--\<close> is that of the integers, and a number below
  \<open>2^31\<close> is read back from a counter as it was put in.
\<close>

lemma sint_decr: "0 < sint (x::int32) \<Longrightarrow> sint (x - 1) = sint x - 1"
  using sint_lt [of x]
  by (simp add: sint_word_ariths signed_take_bit_int_eq_self)

lemma sint_of_nat32: "n < 2147483648 \<Longrightarrow> sint (of_nat n :: int32) = int n"
  by (simp add: signed_of_nat signed_take_bit_int_eq_self)

text \<open>
  A full pass with one record per request adds one to each of the three counters, so
  \<open>n\<close> passes add \<open>n\<close>, in 32-bit arithmetic.
\<close>

lemma one_pass_run:
  assumes "pc s = While_104" and "TRsToRequestEachTime cfg = 1"
  shows "pc (run cfg one_pass s) = While_104 \<and>
         requestCount (run cfg one_pass s) = requestCount s + 1 \<and>
         receivedCount (run cfg one_pass s) = receivedCount s + 1 \<and>
         sentCount (run cfg one_pass s) = sentCount s + 1"
  using assms
  by (simp add: one_pass_def eval_nat_numeral step_def running_def)

lemma passes_run:
  assumes "pc s = While_104" and "TRsToRequestEachTime cfg = 1"
  shows "pc (run cfg (concat (replicate n one_pass)) s) = While_104 \<and>
         requestCount (run cfg (concat (replicate n one_pass)) s) = requestCount s + of_nat n \<and>
         receivedCount (run cfg (concat (replicate n one_pass)) s) = receivedCount s + of_nat n \<and>
         sentCount (run cfg (concat (replicate n one_pass)) s) = sentCount s + of_nat n"
  using assms(1)
proof (induction n arbitrary: s)
  case 0
  then show ?case by simp
next
  case (Suc n)
  note p = one_pass_run [OF Suc.prems assms(2)]
  then have "pc (run cfg one_pass s) = While_104" by simp
  from Suc.IH [OF this] p show ?case
    by (simp add: run_append)
qed

lemma passes_to_the_limit_do_work:
  "pc (do_work source_config passes_to_the_limit) = While_104 \<and>
   requestCount (do_work source_config passes_to_the_limit) = 2147483647 \<and>
   receivedCount (do_work source_config passes_to_the_limit) = 2147483647 \<and>
   sentCount (do_work source_config passes_to_the_limit) = 2147483647"
proof -
  have a: "pc (initial source_config) = While_104"
    and b: "TRsToRequestEachTime source_config = 1"
    by (simp_all add: initial_def source_config_def)
  have c: "requestCount (initial source_config) = 0" "receivedCount (initial source_config) = 0"
    "sentCount (initial source_config) = 0"
    by (simp_all add: initial_def)
  have d: "(of_nat 2147483647 :: int32) = 2147483647" by simp
  from passes_run [OF a b, of 2147483647] show ?thesis
    unfolding do_work_def passes_to_the_limit_def c d by simp
qed

subsection \<open>The two names for the number of records requested\<close>




text \<open>
  The name that line 132 updates does advance by the batch size with every request sent
  (an equation of 32-bit arithmetic).
\<close>

lemma requestTRCount_step:
  "requestTRCount (step cfg e s) - TRsToRequestEachTime cfg * requestCount (step cfg e s)
     = requestTRCount s - TRsToRequestEachTime cfg * requestCount s"
  by (simp add: step_def algebra_simps split: point.splits outcome.splits)

lemma requestTRCount_run:
  "requestTRCount (run cfg es s) - TRsToRequestEachTime cfg * requestCount (run cfg es s)
     = requestTRCount s - TRsToRequestEachTime cfg * requestCount s"
  by (induction es arbitrary: s) (simp_all add: requestTRCount_step)

lemma requestTRCount_do_work:
  "requestTRCount (do_work cfg es)
     = requestTRCount_on_entry cfg + TRsToRequestEachTime cfg * requestCount (do_work cfg es)"
  using requestTRCount_run [of cfg es "initial cfg"]
  by (simp add: do_work_def initial_def diff_eq_eq)

text \<open>
  Claim C2: for every batch size \<open>N \<ge> 1\<close>, at every point of an execution the
  items-requested-cumulative counter equals \<open>N\<close> times the requests-sent counter.
  The source does not keep this: with the flag up and the request-send returning, the
  request is counted in \<^verbatim>\<open>requestCount\<close>, while \<^verbatim>\<open>requestedTRCount\<close>, the counter
  that line 100 declares for the records requested, is still 0, because line 132 adds the
  batch size to the differently spelled \<^verbatim>\<open>requestTRCount\<close>.
\<close>

theorem requestedTRCount_not_advanced:
  "TRsToRequestEachTime source_config = 1 \<and>
   requestCount (do_work source_config request_sent) = 1 \<and>
   requestedTRCount (do_work source_config request_sent) = 0 \<and>
   requestedTRCount (do_work source_config request_sent)
     \<noteq> TRsToRequestEachTime source_config * requestCount (do_work source_config request_sent)"
  by code_simp

subsection \<open>Timeouts and warnings\<close>

text \<open>
  A timeout of the request-send or of the receive is followed at once by one warning
  that names the endpoint and its timeout, and the loop head is next.
\<close>

lemma request_timeout_warned:
  "pc s = Send_119 \<Longrightarrow> result e = TransportTimeoutExpired \<Longrightarrow>
     pc (step cfg e s) = While_104 \<and>
     events (step cfg e s) = events s @
       [Called RequestSender TransportTimeoutExpired,
        Warning RequestSender (requestSendTimeout cfg)]"
  by (simp add: step_def)

lemma receive_timeout_warned:
  "pc s = Receive_147 \<Longrightarrow> result e = TransportTimeoutExpired \<Longrightarrow>
     pc (step cfg e s) = While_142 \<and>
     events (step cfg e s) = events s @
       [Called DataReceiver TransportTimeoutExpired,
        Warning DataReceiver (dataReceiveTimeout cfg)]"
  by (simp add: step_def)

text \<open>
  Over a whole execution: as many warnings as timeouts of these two endpoints. The
  timeouts of the result-send are not among them.
\<close>

lemma warnings_step:
  "int (length (filter is_warning (events (step cfg e s))))
     - int (count_list (events (step cfg e s)) (Called RequestSender TransportTimeoutExpired))
     - int (count_list (events (step cfg e s)) (Called DataReceiver TransportTimeoutExpired))
   = int (length (filter is_warning (events s)))
     - int (count_list (events s) (Called RequestSender TransportTimeoutExpired))
     - int (count_list (events s) (Called DataReceiver TransportTimeoutExpired))"
  by (cases "pc s"; cases "result e") (simp_all add: step_def)

lemma warnings_run:
  "int (length (filter is_warning (events (run cfg es s))))
     - int (count_list (events (run cfg es s)) (Called RequestSender TransportTimeoutExpired))
     - int (count_list (events (run cfg es s)) (Called DataReceiver TransportTimeoutExpired))
   = int (length (filter is_warning (events s)))
     - int (count_list (events s) (Called RequestSender TransportTimeoutExpired))
     - int (count_list (events s) (Called DataReceiver TransportTimeoutExpired))"
  by (induction es arbitrary: s) (simp_all add: warnings_step)

lemma warnings_do_work:
  "length (filter is_warning (events (do_work cfg es)))
     = count_list (events (do_work cfg es)) (Called RequestSender TransportTimeoutExpired)
       + count_list (events (do_work cfg es)) (Called DataReceiver TransportTimeoutExpired)"
  using warnings_run [of cfg es "initial cfg"] by (simp add: do_work_def initial_def)

text \<open>
  Claim C1: every timeout of the request-send, of the receive and of the result-send is
  followed by exactly one warning for that attempt and then retried, while the flag is up.
  The source does so for the first two endpoints and not for the third: a record is
  requested and received, the result-send times out with the flag up, and the events
  end with that call, with no warning in the whole execution; the loop is back at line 170
  for the next attempt.
\<close>

theorem result_send_timeout_not_warned:
  "events (do_work source_config result_send_times_out) =
     [Called RequestSender Returned, Called DataReceiver Returned,
      Called ResultSender TransportTimeoutExpired] \<and>
   filter is_warning (events (do_work source_config result_send_times_out)) = [] \<and>
   pc (do_work source_config result_send_times_out) = While_170"
  by code_simp


subsection \<open>The counters and the calls\<close>

text \<open>
  The counters follow the calls at every control point of every execution, and the
  numbers of returned calls never go down.
\<close>

lemma counters_follow_calls_initial: "counters_follow_calls (initial cfg)"
  by (simp add: counters_follow_calls_def initial_def requests_sent_def records_received_def
        results_sent_def pending_def unsent_def)

lemma counters_follow_calls_step:
  assumes "counters_follow_calls s"
  shows "counters_follow_calls (step cfg e s)"
  using assms
  by (cases "pc s"; cases "result e")
     (auto simp: step_def counters_follow_calls_def requests_sent_def records_received_def
        results_sent_def pending_def unsent_def split: if_splits)

lemma counted_step_mono:
  assumes "counters_follow_calls s"
  shows "requests_sent s \<le> requests_sent (step cfg e s) \<and>
         records_received s \<le> records_received (step cfg e s) \<and>
         records_received s - pending s
           \<le> records_received (step cfg e s) - pending (step cfg e s) \<and>
         results_sent s \<le> results_sent (step cfg e s)"
  using assms
  by (cases "pc s"; cases "result e")
     (auto simp: step_def counters_follow_calls_def requests_sent_def records_received_def
        results_sent_def pending_def unsent_def split: if_splits)

lemma counted_run_mono:
  assumes "counters_follow_calls s"
  shows "counters_follow_calls (run cfg es s) \<and>
         requests_sent s \<le> requests_sent (run cfg es s) \<and>
         records_received s \<le> records_received (run cfg es s) \<and>
         records_received s - pending s
           \<le> records_received (run cfg es s) - pending (run cfg es s) \<and>
         results_sent s \<le> results_sent (run cfg es s)"
  using assms
proof (induction es arbitrary: s)
  case Nil
  then show ?case by simp
next
  case (Cons e es)
  from Cons.prems have "counters_follow_calls (step cfg e s)"
    by (rule counters_follow_calls_step)
  from Cons.IH [OF this] counted_step_mono [OF Cons.prems, of cfg e]
  show ?case by simp
qed

lemma counters_follow_calls_do_work: "counters_follow_calls (do_work cfg es)"
  unfolding do_work_def
  using counted_run_mono [OF counters_follow_calls_initial] by blast

text \<open>
  The counters as signed numbers, as long as fewer than \<open>2^31\<close> requests have been sent
  and fewer than \<open>2^31\<close> records received.
\<close>

lemma counters_as_numbers:
  assumes "counters_follow_calls s"
    and "requests_sent s < 2147483648" and "records_received s < 2147483648"
  shows "sint (requestCount s) = int (requests_sent s) \<and>
         sint (receivedCount s) = int (records_received s - pending s) \<and>
         sint (sentCount s) = int (results_sent s)"
proof -
  from assms(1) have le: "results_sent s + unsent s + pending s \<le> records_received s"
    and rq: "requestCount s = of_nat (requests_sent s)"
    and rc: "receivedCount s + of_nat (pending s) = of_nat (records_received s)"
    and sc: "sentCount s = of_nat (results_sent s)"
    by (simp_all add: counters_follow_calls_def)
  from rc have "receivedCount s = of_nat (records_received s) - of_nat (pending s)"
    by (simp add: eq_diff_eq)
  with le have rc': "receivedCount s = of_nat (records_received s - pending s)"
    by simp
  from le assms(3) have "results_sent s < 2147483648"
    and "records_received s - pending s < 2147483648"
    by simp_all
  with rq rc' sc assms(2) show ?thesis
    by (simp add: sint_of_nat32)
qed




text \<open>
  Claim C4: requests-sent and items-requested-cumulative change only when a request-send
  returns. A request-send that times out leaves the four counters (and
  \<^verbatim>\<open>requestTRCount\<close>) as they were and leads back to line 104; a flag that reads false at
  line 104, where the request phase begins, leaves them as they were, emits nothing and
  leads to the summary; and a step that changes \<^verbatim>\<open>requestCount\<close>,
  \<^verbatim>\<open>requestedTRCount\<close> or \<^verbatim>\<open>requestTRCount\<close> is a request-send that returned.
\<close>

theorem request_counted_only_on_success:
  "(pc s = Send_119 \<and> result e = TransportTimeoutExpired \<longrightarrow>
      counters (step cfg e s) = counters s \<and>
      requestTRCount (step cfg e s) = requestTRCount s \<and>
      pc (step cfg e s) = While_104) \<and>
   (pc s = While_104 \<and> \<not> running_flag e \<longrightarrow>
      counters (step cfg e s) = counters s \<and>
      requestTRCount (step cfg e s) = requestTRCount s \<and>
      events (step cfg e s) = events s \<and>
      pc (step cfg e s) = Summary_191) \<and>
   (requestCount (step cfg e s) \<noteq> requestCount s \<or>
    requestedTRCount (step cfg e s) \<noteq> requestedTRCount s \<or>
    requestTRCount (step cfg e s) \<noteq> requestTRCount s \<longrightarrow>
      pc s = Send_119 \<and> result e = Returned)"
  by (cases "pc s"; cases "result e") (simp_all add: step_def counters_def)

theorem request_counted_only_on_success_witness:
  "pc (do_work source_config [running Returned]) = Send_119 \<and>
   result (running TransportTimeoutExpired) = TransportTimeoutExpired \<and>
   counters (step source_config (running TransportTimeoutExpired)
               (do_work source_config [running Returned]))
     = counters (do_work source_config [running Returned]) \<and>
   pc (do_work source_config []) = While_104 \<and>
   \<not> running_flag (stopped Returned) \<and>
   counters (step source_config (stopped Returned) (do_work source_config []))
     = counters (do_work source_config []) \<and>
   requestCount (step source_config (running Returned) (do_work source_config [running Returned]))
     \<noteq> requestCount (do_work source_config [running Returned]) \<and>
   result (running Returned) = Returned"
  using request_counted_only_on_success
          [of "do_work source_config [running Returned]" "running TransportTimeoutExpired"
              source_config]
        request_counted_only_on_success
          [of "do_work source_config []" "stopped Returned" source_config]
        request_counted_only_on_success
          [of "do_work source_config [running Returned]" "running Returned" source_config]
  by code_simp

lemma owed_invariant_initial: "owed_invariant cfg (initial cfg)"
  by (simp add: owed_invariant_def initial_def requests_sent_def records_received_def)

lemma owed_invariant_step:
  assumes "0 \<le> sint (TRsToRequestEachTime cfg)" and "counters_follow_calls s"
    and "owed_invariant cfg s"
  shows "owed_invariant cfg (step cfg e s)"
  using assms
  by (cases "pc s"; cases "result e")
     (auto simp: step_def counters_follow_calls_def owed_invariant_def requests_sent_def
        records_received_def sint_decr distrib_left split: if_splits)

lemma owed_invariant_run:
  assumes "0 \<le> sint (TRsToRequestEachTime cfg)"
  shows "counters_follow_calls s \<Longrightarrow> owed_invariant cfg s \<Longrightarrow> owed_invariant cfg (run cfg es s)"
proof (induction es arbitrary: s)
  case Nil
  then show ?case by simp
next
  case (Cons e es)
  have "counters_follow_calls (step cfg e s)"
    using Cons.prems(1) by (rule counters_follow_calls_step)
  moreover have "owed_invariant cfg (step cfg e s)"
    using assms Cons.prems by (rule owed_invariant_step)
  ultimately show ?case
    using Cons.IH by simp
qed

lemma owed_invariant_do_work:
  assumes "0 \<le> sint (TRsToRequestEachTime cfg)"
  shows "owed_invariant cfg (do_work cfg es)"
  unfolding do_work_def
  using assms counters_follow_calls_initial owed_invariant_initial by (rule owed_invariant_run)

text \<open>
  Claim C9, as stated: at every point of an execution,
  \<open>0 \<le> items-forwarded \<le> items-received \<le> N \<times> requests-sent\<close>. This fails where a
  counter overflows: after 2147483647 full passes \<^verbatim>\<open>receivedCount\<close> is 2147483647, and
  when the next request-send has returned \<^verbatim>\<open>requestCount\<close> is -2147483648.
\<close>

theorem received_exceeds_requested_on_overflow:
  "sint (TRsToRequestEachTime source_config) = 1 \<and>
   sint (receivedCount (do_work source_config (passes_to_the_limit @ request_sent)))
     = 2147483647 \<and>
   sint (requestCount (do_work source_config (passes_to_the_limit @ request_sent)))
     = - 2147483648 \<and>
   \<not> sint (receivedCount (do_work source_config (passes_to_the_limit @ request_sent)))
       \<le> sint (TRsToRequestEachTime source_config)
          * sint (requestCount (do_work source_config (passes_to_the_limit @ request_sent)))"
proof -
  have n: "sint (TRsToRequestEachTime source_config) = 1"
    by (simp add: source_config_def)
  have r: "request_sent = [running Returned, running Returned]"
    by (simp add: request_sent_def eval_nat_numeral)
  from passes_to_the_limit_do_work n show ?thesis
    unfolding r by (simp add: do_work_append step_def running_def)
qed

text \<open>
  Claim C9, amended: at every point of an execution, as long as fewer than \<open>2^31\<close>
  requests have been sent and fewer than \<open>2^31\<close> records received, so that no counter
  has overflowed, \<open>0 \<le> items-forwarded \<le> items-received \<le> N \<times> requests-sent\<close>, the
  counters read as signed numbers, for a batch size \<open>N\<close> that is not negative.
\<close>

theorem forwarded_le_received_le_requested_before_overflow:
  assumes "0 \<le> sint (TRsToRequestEachTime cfg)"
    and "requests_sent (do_work cfg es) < 2 ^ 31"
    and "records_received (do_work cfg es) < 2 ^ 31"
  shows "0 \<le> sint (sentCount (do_work cfg es)) \<and>
         sint (sentCount (do_work cfg es)) \<le> sint (receivedCount (do_work cfg es)) \<and>
         sint (receivedCount (do_work cfg es))
           \<le> sint (TRsToRequestEachTime cfg) * sint (requestCount (do_work cfg es))"
proof -
  let ?s = "do_work cfg es"
  have f: "counters_follow_calls ?s"
    by (rule counters_follow_calls_do_work)
  from assms(2,3) have b: "requests_sent ?s < 2147483648" "records_received ?s < 2147483648"
    by simp_all
  note n = counters_as_numbers [OF f b]
  from f have le: "results_sent ?s + unsent ?s + pending ?s \<le> records_received ?s"
    by (simp add: counters_follow_calls_def)
  from owed_invariant_do_work [OF assms(1), of es]
  have "int (records_received ?s) \<le> sint (TRsToRequestEachTime cfg) * int (requests_sent ?s)"
    by (simp add: owed_invariant_def)
  with n le show ?thesis by simp
qed

theorem forwarded_le_received_le_requested_before_overflow_witness:
  "0 \<le> sint (TRsToRequestEachTime two_per_request) \<and>
   requests_sent (do_work two_per_request batch_cut_short) < 2 ^ 31 \<and>
   records_received (do_work two_per_request batch_cut_short) < 2 ^ 31 \<and>
   sint (sentCount (do_work two_per_request batch_cut_short)) = 1 \<and>
   sint (receivedCount (do_work two_per_request batch_cut_short)) = 1 \<and>
   sint (TRsToRequestEachTime two_per_request)
     * sint (requestCount (do_work two_per_request batch_cut_short)) = 2 \<and>
   0 \<le> sint (sentCount (do_work two_per_request batch_cut_short)) \<and>
   sint (sentCount (do_work two_per_request batch_cut_short))
     \<le> sint (receivedCount (do_work two_per_request batch_cut_short)) \<and>
   sint (receivedCount (do_work two_per_request batch_cut_short))
     \<le> sint (TRsToRequestEachTime two_per_request)
         * sint (requestCount (do_work two_per_request batch_cut_short))"
proof -
  have h: "0 \<le> sint (TRsToRequestEachTime two_per_request)"
    by code_simp
  have "requests_sent (do_work two_per_request batch_cut_short) = 1"
    and "records_received (do_work two_per_request batch_cut_short) = 1"
    by code_simp+
  then have l: "requests_sent (do_work two_per_request batch_cut_short) < 2 ^ 31"
    "records_received (do_work two_per_request batch_cut_short) < 2 ^ 31"
    by simp_all
  have v: "sint (sentCount (do_work two_per_request batch_cut_short)) = 1"
    "sint (receivedCount (do_work two_per_request batch_cut_short)) = 1"
    "sint (TRsToRequestEachTime two_per_request)
       * sint (requestCount (do_work two_per_request batch_cut_short)) = 2"
    by code_simp+
  from forwarded_le_received_le_requested_before_overflow [OF h l] h l v
  show ?thesis by simp
qed

subsection \<open>The summary\<close>

lemma summary_invariant_step:
  "summary_invariant cfg s \<Longrightarrow> summary_invariant cfg (step cfg e s)"
  by (cases "pc s"; cases "result e")
     (simp_all add: step_def summary_invariant_def summary_of_def)

lemma summary_invariant_run:
  "summary_invariant cfg s \<Longrightarrow> summary_invariant cfg (run cfg es s)"
  by (induction es arbitrary: s) (simp_all add: summary_invariant_step)

lemma summary_invariant_do_work: "summary_invariant cfg (do_work cfg es)"
proof -
  have "summary_invariant cfg (initial cfg)"
    by (simp add: summary_invariant_def initial_def)
  then show ?thesis
    unfolding do_work_def by (rule summary_invariant_run)
qed

text \<open>
  Whatever the configuration and the execution, the summary at the exit does not report
  the four counters: the names it reads are not those of the records requested.
\<close>

lemma summary_never_reports_requested_total:
  assumes "pc (do_work cfg es) = Exited"
  shows "\<not> reports_four_counters (do_work cfg es) (last (events (do_work cfg es)))"
  using summary_invariant_do_work [of cfg es] assms
  by (simp add: summary_invariant_def summary_of_def)

text \<open>
  Claim C5, as stated: on reaching its exit every execution emits exactly one summary,
  which reports all four counters: requests sent, items requested cumulative, items
  received, items forwarded. The second half fails on the source. After two full passes
  and a stop, the five values of the summary are read, in this order, from
  \<^verbatim>\<open>requestCount\<close>, \<^verbatim>\<open>TRsPerRequest\<close>, \<^verbatim>\<open>receivedCount\<close>, \<^verbatim>\<open>processedCount\<close> and
  \<^verbatim>\<open>sentCount\<close> (lines 192 to 195): neither \<^verbatim>\<open>requestedTRCount\<close> nor the
  \<^verbatim>\<open>requestTRCount\<close> of line 132 is among them, whatever these names hold.
\<close>

theorem summary_omits_requested_total:
  "pc (do_work source_config two_passes_then_stop) = Exited \<and>
   map fst (streamed (last (events (do_work source_config two_passes_then_stop))))
     = [V_requestCount, V_TRsPerRequest, V_receivedCount, V_processedCount, V_sentCount] \<and>
   \<not> reports_four_counters (do_work source_config two_passes_then_stop)
       (last (events (do_work source_config two_passes_then_stop)))"
  by code_simp

text \<open>
  Claim C5, amended: on reaching its exit (for any reason, including cancellation observed
  mid-batch) every execution has emitted exactly one summary, as its last event, and none
  before the exit; that summary reports three of the four counters, requests sent, items
  received and items forwarded, with their final values. Its other two values are read
  from \<^verbatim>\<open>TRsPerRequest\<close> and \<^verbatim>\<open>processedCount\<close>, names that the function neither declares
  nor assigns; items requested cumulative is not reported.
\<close>

theorem one_summary_reporting_three_counters:
  "filter is_summary (events (do_work cfg es)) =
     (if pc (do_work cfg es) = Exited
      then [ProgressUpdate
              [(V_requestCount, sint (requestCount (do_work cfg es))),
               (V_TRsPerRequest, TRsPerRequest cfg),
               (V_receivedCount, sint (receivedCount (do_work cfg es))),
               (V_processedCount, processedCount cfg),
               (V_sentCount, sint (sentCount (do_work cfg es)))]]
      else []) \<and>
   (pc (do_work cfg es) = Exited \<longrightarrow>
      last (events (do_work cfg es)) =
        ProgressUpdate
          [(V_requestCount, sint (requestCount (do_work cfg es))),
           (V_TRsPerRequest, TRsPerRequest cfg),
           (V_receivedCount, sint (receivedCount (do_work cfg es))),
           (V_processedCount, processedCount cfg),
           (V_sentCount, sint (sentCount (do_work cfg es)))] \<and>
      \<not> reports_four_counters (do_work cfg es) (last (events (do_work cfg es))))"
  using summary_invariant_do_work [of cfg es] summary_never_reports_requested_total [of cfg es]
  by (simp add: summary_invariant_def summary_of_def)

theorem one_summary_reporting_three_counters_witness:
  "pc (do_work source_config stopped_while_receiving) = Exited \<and>
   filter is_summary (events (do_work source_config stopped_while_receiving))
     = [ProgressUpdate
          [(V_requestCount, 1), (V_TRsPerRequest, TRsPerRequest source_config),
           (V_receivedCount, 0), (V_processedCount, processedCount source_config),
           (V_sentCount, 0)]] \<and>
   last (events (do_work source_config stopped_while_receiving))
     = ProgressUpdate
         [(V_requestCount, 1), (V_TRsPerRequest, TRsPerRequest source_config),
          (V_receivedCount, 0), (V_processedCount, processedCount source_config),
          (V_sentCount, 0)] \<and>
   sint (requestCount (do_work source_config stopped_while_receiving)) = 1 \<and>
   sint (receivedCount (do_work source_config stopped_while_receiving)) = 0 \<and>
   sint (sentCount (do_work source_config stopped_while_receiving)) = 0 \<and>
   pc (do_work source_config at_receive_loop) \<noteq> Exited \<and>
   filter is_summary (events (do_work source_config at_receive_loop)) = []"
  using one_summary_reporting_three_counters [of source_config stopped_while_receiving]
        one_summary_reporting_three_counters [of source_config at_receive_loop]
  by code_simp

subsection \<open>Cancellation\<close>

text \<open>
  A call site is entered only from one of the three loop heads in front of it, by a step
  in which the flag was loaded and read true.
\<close>

lemma call_site_entered:
  "call_site (pc (step cfg e s)) \<Longrightarrow>
     running_flag e \<and> (pc s = While_104 \<or> pc s = While_142 \<or> pc s = While_170)"
  by (cases "pc s"; cases "result e") (simp_all add: step_def call_site_def split: if_splits)

text \<open>
  Away from the call sites, a step in which the flag reads false makes no call, does not
  reach a call site, and comes one step closer to the return.
\<close>

lemma stopped_step:
  assumes "\<not> running_flag e" and "\<not> call_site (pc s)"
  shows "\<not> call_site (pc (step cfg e s)) \<and>
         calls (step cfg e s) = calls s \<and>
         steps_to_exit (pc (step cfg e s)) \<le> steps_to_exit (pc s) - 1"
  using assms
  by (cases "pc s") (simp_all add: step_def call_site_def calls_def)

lemma stopped_run:
  assumes "\<forall>e\<in>set es. \<not> running_flag e" and "\<not> call_site (pc s)"
  shows "\<not> call_site (pc (run cfg es s)) \<and>
         calls (run cfg es s) = calls s \<and>
         steps_to_exit (pc (run cfg es s)) \<le> steps_to_exit (pc s) - length es"
  using assms
proof (induction es arbitrary: s)
  case Nil
  then show ?case by simp
next
  case (Cons e es)
  from Cons.prems have e: "\<not> running_flag e" and es: "\<forall>e\<in>set es. \<not> running_flag e"
    by simp_all
  note st = stopped_step [OF e Cons.prems(2), of cfg]
  then have "\<not> call_site (pc (step cfg e s))" by simp
  from Cons.IH [OF es this] st
  show ?case by simp arith
qed

lemma steps_to_exit_zero: "steps_to_exit p = 0 \<longleftrightarrow> p = Exited"
  by (cases p) simp_all

lemma stopped_run_exits:
  assumes "\<forall>e\<in>set es. \<not> running_flag e" and "steps_to_exit (pc s) \<le> length es"
    and "\<not> call_site (pc s)"
  shows "pc (run cfg es s) = Exited"
proof -
  from stopped_run [OF assms(1,3), of cfg] assms(2)
  have "steps_to_exit (pc (run cfg es s)) = 0" by linarith
  then show ?thesis by (simp add: steps_to_exit_zero)
qed

text \<open>
  Claim C10: once the flag reads false the loop makes no further endpoint call, because
  every call is directly preceded by a load of the flag that read true; and it reaches the
  summary and returns after finitely many steps. Stated for the flag that stays false, from
  any control point other than a call already under way: no call is added, no call site is
  reached, and six steps are enough to return; in an execution of the function the
  summary has then been emitted, once.
\<close>

theorem no_call_after_flag_reads_false:
  "(call_site (pc (step cfg e s)) \<longrightarrow>
      running_flag e \<and> (pc s = While_104 \<or> pc s = While_142 \<or> pc s = While_170)) \<and>
   ((\<forall>e\<in>set es. \<not> running_flag e) \<and> \<not> call_site (pc s) \<longrightarrow>
      calls (run cfg es s) = calls s \<and>
      \<not> call_site (pc (run cfg es s)) \<and>
      (6 \<le> length es \<longrightarrow>
         pc (run cfg es s) = Exited \<and>
         (s = do_work cfg es' \<longrightarrow> filter is_summary (events (run cfg es s))
            = [summary_of cfg (run cfg es s)])))"
proof (intro conjI impI)
  assume "call_site (pc (step cfg e s))"
  then show "running_flag e" and "pc s = While_104 \<or> pc s = While_142 \<or> pc s = While_170"
    using call_site_entered by blast+
next
  assume a: "(\<forall>e\<in>set es. \<not> running_flag e) \<and> \<not> call_site (pc s)"
  then show "calls (run cfg es s) = calls s" and "\<not> call_site (pc (run cfg es s))"
    using stopped_run [of es s cfg] by blast+
  assume l: "6 \<le> length es"
  from a have "steps_to_exit (pc s) \<le> 6"
    by (cases "pc s") (simp_all add: call_site_def)
  with a l show x: "pc (run cfg es s) = Exited"
    using stopped_run_exits [of es s cfg] by simp
  assume "s = do_work cfg es'"
  then have "summary_invariant cfg (run cfg es s)"
    using summary_invariant_do_work [of cfg "es' @ es"] by (simp add: do_work_append)
  with x show "filter is_summary (events (run cfg es s)) = [summary_of cfg (run cfg es s)]"
    by (simp add: summary_invariant_def)
qed

theorem no_call_after_flag_reads_false_witness:
  "pc (do_work source_config at_receive_loop) = While_142 \<and>
   \<not> call_site (pc (do_work source_config at_receive_loop)) \<and>
   list_all (\<lambda>x. \<not> running_flag x) (replicate 6 (stopped Returned)) \<and>
   calls (run source_config (replicate 6 (stopped Returned))
            (do_work source_config at_receive_loop))
     = [Called RequestSender Returned] \<and>
   calls (do_work source_config at_receive_loop) = [Called RequestSender Returned] \<and>
   pc (run source_config (replicate 6 (stopped Returned))
         (do_work source_config at_receive_loop)) = Exited \<and>
   filter is_summary
     (events (run source_config (replicate 6 (stopped Returned))
                (do_work source_config at_receive_loop)))
     = [ProgressUpdate
          [(V_requestCount, 1), (V_TRsPerRequest, 1), (V_receivedCount, 0),
           (V_processedCount, 0), (V_sentCount, 0)]] \<and>
   call_site (pc (step source_config (running Returned)
                    (do_work source_config at_receive_loop))) \<and>
   running_flag (running Returned)"
  using no_call_after_flag_reads_false
          [of source_config "running Returned" "do_work source_config at_receive_loop"
              "replicate 6 (stopped Returned)" at_receive_loop]
  by code_simp

text \<open>
  Claim C3: if the flag reads false when a retry stage (request-send, receive, result-send)
  is about to make its first attempt, the stage makes no endpoint call in that iteration
  and the loop proceeds toward its exit; a flag that reads false at the top of the outer
  loop prevents any send or receive in that iteration.
  \<^item> At line 104 the step goes to the summary and changes nothing else.
  \<^item> At line 142, with no record received yet, the step goes to line 163, and from there
    the next step, whatever the environment, goes to line 138: the state is unchanged but
    for the control point.
  \<^item> At line 170, with the record not yet sent, the step goes to line 138 likewise.
  \<^item> With the flag staying false, from each of the three no call is added and five more
    steps are enough to return.
\<close>

theorem cancelled_stage_makes_no_call:
  assumes "\<not> running_flag e"
  shows
    "(pc s = While_104 \<longrightarrow> step cfg e s = s\<lparr>pc := Summary_191\<rparr>) \<and>
     (pc s = While_142 \<and> \<not> trigRecWasSuccessfullyReceived s \<longrightarrow>
        step cfg e s = s\<lparr>pc := If_163\<rparr> \<and>
        step cfg e' (step cfg e s) = s\<lparr>pc := While_138\<rparr>) \<and>
     (pc s = While_170 \<and> \<not> trigRecWasSuccessfullySent s \<longrightarrow>
        step cfg e s = s\<lparr>pc := While_138\<rparr>) \<and>
     ((pc s = While_104 \<or> pc s = While_142 \<or> pc s = While_170) \<and>
      (\<forall>x\<in>set es. \<not> running_flag x) \<longrightarrow>
        calls (run cfg (e # es) s) = calls s \<and>
        (5 \<le> length es \<longrightarrow> pc (run cfg (e # es) s) = Exited))"
proof (intro conjI impI)
  assume "pc s = While_104"
  with assms show "step cfg e s = s\<lparr>pc := Summary_191\<rparr>"
    by (simp add: step_def)
next
  assume a: "pc s = While_142 \<and> \<not> trigRecWasSuccessfullyReceived s"
  with assms show "step cfg e s = s\<lparr>pc := If_163\<rparr>"
    by (simp add: step_def)
  with a show "step cfg e' (step cfg e s) = s\<lparr>pc := While_138\<rparr>"
    by (simp add: step_def)
next
  assume "pc s = While_170 \<and> \<not> trigRecWasSuccessfullySent s"
  with assms show "step cfg e s = s\<lparr>pc := While_138\<rparr>"
    by (simp add: step_def)
next
  assume a: "(pc s = While_104 \<or> pc s = While_142 \<or> pc s = While_170) \<and>
      (\<forall>x\<in>set es. \<not> running_flag x)"
  then have site: "\<not> call_site (pc s)"
    by (auto simp: call_site_def)
  from a assms have down: "\<forall>x\<in>set (e # es). \<not> running_flag x"
    by simp
  from stopped_run [OF down site, of cfg]
  show "calls (run cfg (e # es) s) = calls s" by blast
  assume "5 \<le> length es"
  moreover from a have "steps_to_exit (pc s) \<le> 6" by auto
  ultimately have "steps_to_exit (pc s) \<le> length (e # es)" by simp
  with down show "pc (run cfg (e # es) s) = Exited"
    using site by (rule stopped_run_exits)
qed

theorem cancelled_stage_makes_no_call_witness:
  "\<not> running_flag (stopped Returned) \<and>
   pc (do_work source_config []) = While_104 \<and>
   pc (step source_config (stopped Returned) (do_work source_config [])) = Summary_191 \<and>
   events (step source_config (stopped Returned) (do_work source_config [])) = [] \<and>
   pc (do_work source_config at_receive_loop) = While_142 \<and>
   \<not> trigRecWasSuccessfullyReceived (do_work source_config at_receive_loop) \<and>
   step source_config (running Returned)
     (step source_config (stopped Returned) (do_work source_config at_receive_loop))
     = (do_work source_config at_receive_loop)\<lparr>pc := While_138\<rparr> \<and>
   pc (do_work source_config at_send_loop) = While_170 \<and>
   \<not> trigRecWasSuccessfullySent (do_work source_config at_send_loop) \<and>
   step source_config (stopped Returned) (do_work source_config at_send_loop)
     = (do_work source_config at_send_loop)\<lparr>pc := While_138\<rparr> \<and>
   list_all (\<lambda>x. \<not> running_flag x) (replicate 5 (stopped Returned)) \<and>
   calls (do_work source_config stopped_while_receiving)
     = calls (do_work source_config at_receive_loop) \<and>
   pc (do_work source_config stopped_while_receiving) = Exited"
proof -
  have h: "\<not> running_flag (stopped Returned)"
    by code_simp
  have split: "do_work source_config stopped_while_receiving
      = run source_config (stopped Returned # replicate 5 (stopped Returned))
          (do_work source_config at_receive_loop)"
    by code_simp
  from cancelled_stage_makes_no_call
         [OF h, of "do_work source_config []" source_config "running Returned" "[]"]
       cancelled_stage_makes_no_call
         [OF h, of "do_work source_config at_receive_loop" source_config "running Returned"
            "replicate 5 (stopped Returned)"]
       cancelled_stage_makes_no_call
         [OF h, of "do_work source_config at_send_loop" source_config "running Returned" "[]"]
       h split
  show ?thesis by code_simp
qed

subsection \<open>The batch\<close>



subsection \<open>Sending the result back\<close>

text \<open>A \<^verbatim>\<open>receive\<close> that returns leaves the worker holding the record.\<close>

lemma receive_returned_holds:
  "pc s = Receive_147 \<Longrightarrow> result e = Returned \<Longrightarrow> holds_unsent_record (step cfg e s)"
  by (simp add: step_def holds_unsent_record_def)

text \<open>
  With the flag up, a held record is taken to the call of line 175, with no event and in
  as many steps as there are control points in between.
\<close>

lemma held_record_reaches_send:
  assumes "holds_unsent_record s" and "\<forall>x\<in>set es. running_flag x"
    and "length es = steps_to_send (pc s)"
  shows "pc (run cfg es s) = Send_175 \<and> holds_unsent_record (run cfg es s) \<and>
         events (run cfg es s) = events s"
proof (cases "pc s")
  case While_142
  with assms(3) obtain a b c where "es = [a, b, c]"
    by (auto simp: length_Suc_conv eval_nat_numeral)
  with assms(1,2) While_142 show ?thesis
    by (simp add: step_def holds_unsent_record_def)
next
  case If_163
  with assms(3) obtain a b where "es = [a, b]"
    by (auto simp: length_Suc_conv eval_nat_numeral)
  with assms(1,2) If_163 show ?thesis
    by (simp add: step_def holds_unsent_record_def)
next
  case While_170
  with assms(3) obtain a where "es = [a]"
    by (auto simp: length_Suc_conv)
  with assms(1,2) While_170 show ?thesis
    by (simp add: step_def holds_unsent_record_def)
next
  case Send_175
  with assms(1,3) show ?thesis by simp
qed (use assms(1) in \<open>simp_all add: holds_unsent_record_def\<close>)

text \<open>
  At the call of line 175 with the flag up, a timeout is followed by the loop head and the
  same call again; nothing but the events has changed, so \<open>n\<close> timeouts in a row are
  \<open>n\<close> calls, for every \<open>n\<close>.
\<close>

lemma timeout_then_retry:
  assumes "pc s = Send_175" and "\<not> trigRecWasSuccessfullySent s"
    and "result a = TransportTimeoutExpired" and "running_flag b"
  shows "step cfg b (step cfg a s)
           = s\<lparr>events := events s @ [Called ResultSender TransportTimeoutExpired]\<rparr>"
  using assms by (simp add: step_def)

lemma retries_without_limit:
  assumes "pc s = Send_175" and "\<not> trigRecWasSuccessfullySent s"
    and "\<forall>x\<in>set es. running_flag x \<and> result x = TransportTimeoutExpired"
    and "length es = 2 * n"
  shows "run cfg es s
           = s\<lparr>events := events s @ replicate n (Called ResultSender TransportTimeoutExpired)\<rparr>"
  using assms
proof (induction n arbitrary: es s)
  case 0
  then show ?case by simp
next
  case (Suc n)
  from Suc.prems(4) obtain a b es' where es: "es = a # b # es'" and l: "length es' = 2 * n"
    by (auto simp: length_Suc_conv)
  let ?s = "s\<lparr>events := events s @ [Called ResultSender TransportTimeoutExpired]\<rparr>"
  from es Suc.prems(3) have "result a = TransportTimeoutExpired" and "running_flag b"
    and rest: "\<forall>x\<in>set es'. running_flag x \<and> result x = TransportTimeoutExpired"
    by simp_all
  with Suc.prems(1,2) have two: "step cfg b (step cfg a s) = ?s"
    by (simp add: timeout_then_retry)
  from Suc.prems(1,2) have "pc ?s = Send_175" and "\<not> trigRecWasSuccessfullySent ?s"
    by simp_all
  from Suc.IH [OF this rest l] es two show ?case
    by (simp add: replicate_append_same)
qed

text \<open>
  While the worker holds a received record and the flag reads true, a step either is the
  result-send that returns, or keeps holding the record with no result sent.
\<close>

lemma results_sent_step:
  "results_sent (step cfg e s)
     = results_sent s + (if pc s = Send_175 \<and> result e = Returned then 1 else 0)"
  by (cases "pc s"; cases "result e") (simp_all add: step_def results_sent_def)

lemma results_sent_run_mono: "results_sent s \<le> results_sent (run cfg es s)"
proof (induction es arbitrary: s)
  case Nil
  show ?case by simp
next
  case (Cons e es)
  have "results_sent s \<le> results_sent (step cfg e s)"
    by (simp add: results_sent_step)
  with Cons.IH [of "step cfg e s"] show ?case by simp
qed

lemma holding_step:
  assumes "running_flag e" and "holds_unsent_record s"
    and "\<not> (pc s = Send_175 \<and> result e = Returned)"
  shows "holds_unsent_record (step cfg e s)"
  using assms
  by (cases "pc s"; cases "result e") (simp_all add: step_def holds_unsent_record_def)

lemma holding_run:
  assumes "\<forall>e\<in>set es. running_flag e" and "holds_unsent_record s"
  shows "holds_unsent_record (run cfg es s) \<and> results_sent (run cfg es s) = results_sent s
         \<or> results_sent s < results_sent (run cfg es s)"
  using assms
proof (induction es arbitrary: s)
  case Nil
  then show ?case by simp
next
  case (Cons e es)
  from Cons.prems have e: "running_flag e" and es: "\<forall>e\<in>set es. running_flag e"
    by simp_all
  show ?case
  proof (cases "pc s = Send_175 \<and> result e = Returned")
    case True
    then have "results_sent (step cfg e s) = results_sent s + 1"
      by (simp add: results_sent_step)
    moreover have "results_sent (step cfg e s) \<le> results_sent (run cfg es (step cfg e s))"
      by (rule results_sent_run_mono)
    ultimately show ?thesis by simp
  next
    case False
    with e Cons.prems(2) have "holds_unsent_record (step cfg e s)"
      by (rule holding_step)
    moreover from False have "results_sent (step cfg e s) = results_sent s"
      by (simp add: results_sent_step)
    ultimately show ?thesis
      using Cons.IH [OF es, of "step cfg e s"] by simp
  qed
qed

text \<open>
  \<^verbatim>\<open>sentCount\<close> is the number of result-sends that have returned, in 32-bit arithmetic.
\<close>

lemma sentCount_step:
  "sentCount (step cfg e s)
     = sentCount s + (if pc s = Send_175 \<and> result e = Returned then 1 else 0)"
  by (cases "pc s"; cases "result e") (simp_all add: step_def)

lemma sentCount_run:
  "sentCount (run cfg es s) - of_nat (results_sent (run cfg es s))
     = sentCount s - of_nat (results_sent s)"
  by (induction es arbitrary: s) (simp_all add: sentCount_step results_sent_step)

lemma sentCount_do_work: "sentCount (do_work cfg es) = of_nat (results_sent (do_work cfg es))"
  using sentCount_run [of cfg es "initial cfg"]
  by (simp add: do_work_def initial_def results_sent_def)

text \<open>
  Claim C7: for every record received, while the flag stays true the worker does not go on
  to a next receive or a next request before the result-send for that record has returned;
  the send stage retries after every timeout, without limit; and items-forwarded goes up
  by exactly one per result-send that returns.
  \<^item> A \<^verbatim>\<open>receive\<close> that returns (line 147) leaves the worker holding the record.
  \<^item> From a state that holds an unsent record, with the flag up: the next steps lead to
    the call of line 175 without any event; through any steps, either the record is still
    held and no result-send has returned, or one has returned; so at the next
    \<^verbatim>\<open>receive\<close> (line 147) or request-send (line 119) one has returned.
  \<^item> At the call of line 175, \<open>n\<close> timeouts in a row with the flag up are \<open>n\<close> calls of
    the result-send, after which the worker is at the same call in the same state, for
    every \<open>n\<close>.
  \<^item> A step adds one to \<^verbatim>\<open>sentCount\<close> when it is a result-send that returns, and nothing
    otherwise; over an execution \<^verbatim>\<open>sentCount\<close> is the number of such calls, counted in
    32 bits.
\<close>

theorem record_sent_before_advancing:
  "(pc s = Receive_147 \<and> result e = Returned \<longrightarrow> holds_unsent_record (step cfg e s)) \<and>
   (holds_unsent_record s \<and> (\<forall>x\<in>set es. running_flag x) \<longrightarrow>
      (length es = steps_to_send (pc s) \<longrightarrow>
         pc (run cfg es s) = Send_175 \<and> holds_unsent_record (run cfg es s) \<and>
         events (run cfg es s) = events s) \<and>
      (holds_unsent_record (run cfg es s) \<and> results_sent (run cfg es s) = results_sent s
       \<or> results_sent s < results_sent (run cfg es s)) \<and>
      (pc (run cfg es s) = Receive_147 \<or> pc (run cfg es s) = Send_119 \<longrightarrow>
         results_sent s < results_sent (run cfg es s)) \<and>
      (pc s = Send_175 \<and> (\<forall>x\<in>set es. result x = TransportTimeoutExpired) \<and>
       length es = 2 * n \<longrightarrow>
         run cfg es s =
           s\<lparr>events :=
               events s @ replicate n (Called ResultSender TransportTimeoutExpired)\<rparr>)) \<and>
   sentCount (step cfg e s) =
     sentCount s + (if pc s = Send_175 \<and> result e = Returned then 1 else 0) \<and>
   results_sent (step cfg e s) =
     results_sent s + (if pc s = Send_175 \<and> result e = Returned then 1 else 0) \<and>
   sentCount (do_work cfg es') = of_nat (results_sent (do_work cfg es'))"
proof (intro conjI impI)
  assume "pc s = Receive_147 \<and> result e = Returned"
  then show "holds_unsent_record (step cfg e s)"
    using receive_returned_holds by blast
next
  assume a: "holds_unsent_record s \<and> (\<forall>x\<in>set es. running_flag x)"
  then show d: "holds_unsent_record (run cfg es s) \<and>
        results_sent (run cfg es s) = results_sent s
       \<or> results_sent s < results_sent (run cfg es s)"
    using holding_run [of es s cfg] by blast
  {
    assume "length es = steps_to_send (pc s)"
    with a have "pc (run cfg es s) = Send_175 \<and> holds_unsent_record (run cfg es s) \<and>
         events (run cfg es s) = events s"
      using held_record_reaches_send [of s es cfg] by blast
    then show "pc (run cfg es s) = Send_175" and "holds_unsent_record (run cfg es s)"
      and "events (run cfg es s) = events s"
      by simp_all
  }
  {
    assume "pc (run cfg es s) = Receive_147 \<or> pc (run cfg es s) = Send_119"
    then have "\<not> holds_unsent_record (run cfg es s)"
      by (auto simp: holds_unsent_record_def)
    with d show "results_sent s < results_sent (run cfg es s)" by blast
  }
  {
    assume b: "pc s = Send_175 \<and> (\<forall>x\<in>set es. result x = TransportTimeoutExpired) \<and>
       length es = 2 * n"
    with a have "\<not> trigRecWasSuccessfullySent s"
      by (auto simp: holds_unsent_record_def)
    moreover from a b have "\<forall>x\<in>set es. running_flag x \<and> result x = TransportTimeoutExpired"
      by blast
    ultimately show "run cfg es s =
           s\<lparr>events :=
               events s @ replicate n (Called ResultSender TransportTimeoutExpired)\<rparr>"
      using b retries_without_limit [of s es n cfg] by blast
  }
next
  show "sentCount (step cfg e s) =
     sentCount s + (if pc s = Send_175 \<and> result e = Returned then 1 else 0)"
    by (rule sentCount_step)
next
  show "results_sent (step cfg e s) =
     results_sent s + (if pc s = Send_175 \<and> result e = Returned then 1 else 0)"
    by (rule results_sent_step)
next
  show "sentCount (do_work cfg es') = of_nat (results_sent (do_work cfg es'))"
    by (rule sentCount_do_work)
qed

theorem record_sent_before_advancing_witness:
  "pc (do_work source_config at_receive) = Receive_147 \<and>
   result (running Returned) = Returned \<and>
   holds_unsent_record (step source_config (running Returned) (do_work source_config at_receive)) \<and>
   holds_unsent_record (do_work source_config record_received) \<and>
   list_all running_flag (replicate 3 (running Returned)) \<and>
   length (replicate 3 (running Returned))
     = steps_to_send (pc (do_work source_config record_received)) \<and>
   pc (run source_config (replicate 3 (running Returned))
         (do_work source_config record_received)) = Send_175 \<and>
   list_all running_flag send_after_two_timeouts \<and>
   pc (run source_config send_after_two_timeouts (do_work source_config record_received))
     = Send_119 \<and>
   results_sent (do_work source_config record_received) = 0 \<and>
   results_sent (run source_config send_after_two_timeouts
                   (do_work source_config record_received)) = 1 \<and>
   pc (do_work source_config at_result_send) = Send_175 \<and>
   holds_unsent_record (do_work source_config at_result_send) \<and>
   list_all (\<lambda>x. running_flag x \<and> result x = TransportTimeoutExpired) four_result_timeouts \<and>
   length four_result_timeouts = 2 * 4 \<and>
   run source_config four_result_timeouts (do_work source_config at_result_send)
     = (do_work source_config at_result_send)
         \<lparr>events := events (do_work source_config at_result_send)
            @ replicate 4 (Called ResultSender TransportTimeoutExpired)\<rparr> \<and>
   result_timeouts
     (run source_config four_result_timeouts (do_work source_config at_result_send)) = 4"
  using record_sent_before_advancing
          [of "do_work source_config at_receive" "running Returned" source_config
              "[]" 0 "[]"]
        record_sent_before_advancing
          [of "do_work source_config record_received" "running Returned" source_config
              "replicate 3 (running Returned)" 0 "[]"]
        record_sent_before_advancing
          [of "do_work source_config record_received" "running Returned" source_config
              send_after_two_timeouts 0 "record_received @ send_after_two_timeouts"]
        record_sent_before_advancing
          [of "do_work source_config at_result_send" "running Returned" source_config
              four_result_timeouts 4 "[]"]
  by code_simp

end
